theory Spec2Isabelle
  imports Complex_Main
begin

section \<open>Haircut Sharpe ratios (CampbellBacktesting)\<close>

text \<open>
  A shallow embedding of \<^verbatim>\<open>mlfinlab/backtest_statistics/backtests.py\<close>.

  Python and NumPy floating-point numbers are modelled by real numbers with exact
  arithmetic, except in the parameter estimation, which is also modelled in binary64
  with the rounding of every literal and operation. A NumPy value that may be NaN or
  infinite is a \<open>real option\<close>, with \<open>None\<close> for the non-finite values. Python integers
  are \<open>int\<close>. An exception is a value \<open>Inl e\<close> of a sum type.
\<close>

datatype error = ZeroDivisionError | IndexError | ValueError | UnboundLocalError | ComplexResult

type_synonym npfloat = "real option"

subsection \<open>Frequency lookups\<close>

text \<open>The \<^verbatim>\<open>if/elif\<close> chain at the head of \<^verbatim>\<open>_annualized_sharpe_ratio\<close>.\<close>

definition times_per_year :: "string \<Rightarrow> nat" where
  "times_per_year sampling_frequency =
     (if sampling_frequency = ''D'' then 360
      else if sampling_frequency = ''W'' then 52
      else if sampling_frequency = ''M'' then 12
      else if sampling_frequency = ''Q'' then 4
      else if sampling_frequency = ''A'' then 1
      else 1)"

definition annual_multiplier :: "string \<Rightarrow> bool \<Rightarrow> real" where
  "annual_multiplier sampling_frequency annualized =
     (if \<not> annualized then sqrt (real (times_per_year sampling_frequency)) else 1)"

text \<open>
  The autocorrelation multiplier is computed on Python floats: a division by zero and
  the power of zero with a negative exponent raise \<^verbatim>\<open>ZeroDivisionError\<close>. The power
  of a negative base with exponent \<^verbatim>\<open>-0.5\<close> is a complex number, which Python returns
  without raising; the model has real numbers only and marks that value with
  \<open>ComplexResult\<close>, which stands for no exception of Python.
\<close>

definition autocorr_multiplier :: "string \<Rightarrow> real \<Rightarrow> bool \<Rightarrow> error + real" where
  "autocorr_multiplier sampling_frequency rho autocorr_adjusted =
     (if \<not> autocorr_adjusted then
        (if 1 - rho = 0 then Inl ZeroDivisionError
         else
           (let t = real (times_per_year sampling_frequency);
                base = 1 + (2 * rho / (1 - rho)) * (1 - ((1 - rho ^ times_per_year sampling_frequency) / (t * (1 - rho))))
            in if base = 0 then Inl ZeroDivisionError
               else if base < 0 then Inl ComplexResult
               else Inr (1 / sqrt base)))
      else Inr 1)"

definition annualized_sharpe_ratio :: "real \<Rightarrow> string \<Rightarrow> real \<Rightarrow> bool \<Rightarrow> bool \<Rightarrow> error + real" where
  "annualized_sharpe_ratio sharpe_ratio sampling_frequency rho annualized autocorr_adjusted =
     (case autocorr_multiplier sampling_frequency rho autocorr_adjusted of
        Inl e \<Rightarrow> Inl e
      | Inr am \<Rightarrow> Inr (sharpe_ratio * annual_multiplier sampling_frequency annualized * am))"

definition monthly_observations :: "int \<Rightarrow> string \<Rightarrow> real" where
  "monthly_observations num_obs sampling_frequency =
     (if sampling_frequency = ''D'' then of_int \<lfloor>real_of_int (num_obs * 12) / 360\<rfloor>
      else if sampling_frequency = ''W'' then of_int \<lfloor>real_of_int (num_obs * 12) / 52\<rfloor>
      else if sampling_frequency = ''M'' then of_int \<lfloor>real_of_int (num_obs * 12) / 12\<rfloor>
      else if sampling_frequency = ''Q'' then of_int \<lfloor>real_of_int (num_obs * 12) / 4\<rfloor>
      else if sampling_frequency = ''A'' then of_int \<lfloor>real_of_int (num_obs * 12) / 1\<rfloor>
      else of_int \<lfloor>real_of_int num_obs\<rfloor>)"

subsection \<open>Parameter estimation\<close>

definition parameter_levels :: "real list list" where
  "parameter_levels =
     [[0, 1295, 3.9660 * 0.1, 5.4995 * 0.001],
      [0.2, 1377, 4.4589 * 0.1, 5.5508 * 0.001],
      [0.4, 1476, 4.8604 * 0.1, 5.5413 * 0.001],
      [0.6, 1773, 5.9902 * 0.1, 5.5512 * 0.001],
      [0.8, 3109, 8.3901 * 0.1, 5.5956 * 0.001]]"

text \<open>\<^verbatim>\<open>a * row1 + b * row2\<close> on NumPy rows: elementwise.\<close>

definition interpolate :: "real \<Rightarrow> real list \<Rightarrow> real \<Rightarrow> real list \<Rightarrow> real list" where
  "interpolate a row1 b row2 = map2 (+) (map ((*) a) row1) (map ((*) b) row2)"

definition parameter_calculation :: "real \<Rightarrow> real list" where
  "parameter_calculation rho =
     (if rho < 0 then parameter_levels ! 1
      else if rho < 0.2 then
        interpolate ((0.2 - rho) / 0.2) (parameter_levels ! 0) ((rho - 0) / 0.2) (parameter_levels ! 1)
      else if rho < 0.4 then
        interpolate ((0.4 - rho) / 0.2) (parameter_levels ! 1) ((rho - 0.2) / 0.2) (parameter_levels ! 2)
      else if rho < 0.6 then
        interpolate ((0.6 - rho) / 0.2) (parameter_levels ! 2) ((rho - 0.4) / 0.2) (parameter_levels ! 3)
      else if rho < 0.8 then
        interpolate ((0.8 - rho) / 0.2) (parameter_levels ! 3) ((rho - 0.6) / 0.2) (parameter_levels ! 4)
      else if rho < 1.0 then
        interpolate ((0.8 - rho) / 0.2) (parameter_levels ! 3) ((rho - 0.6) / 0.2) (parameter_levels ! 4)
      else parameter_levels ! 1)"

subsection \<open>Parameter estimation in binary64\<close>

text \<open>
  Python floats are IEEE 754 binary64 numbers. \<open>b64 x\<close> is the binary64 number nearest
  to the real \<open>x\<close>, ties to the even significand: with \<open>e = floor(log2 |x|)\<close> the
  spacing of the binary64 numbers around \<open>x\<close> is \<open>2^(e - 52)\<close>. Overflow and subnormal
  numbers are left out; every number of the parameter estimation is far from both. A
  decimal literal of the source is \<open>b64\<close> of its decimal value, and each arithmetic
  operation is \<open>b64\<close> of the exact result.
\<close>

definition round_half_even :: "real \<Rightarrow> int" where
  "round_half_even y =
     (let f = \<lfloor>y\<rfloor>; d = y - of_int f
      in if d < 1 / 2 then f else if 1 / 2 < d then f + 1 else if even f then f else f + 1)"

definition b64 :: "real \<Rightarrow> real" where
  "b64 x =
     (if x = 0 then 0
      else (let e = \<lfloor>log 2 \<bar>x\<bar>\<rfloor>; u = 2 powr (of_int e - 52)
            in of_int (round_half_even (x / u)) * u))"

text \<open>
  \<^verbatim>\<open>_parameter_calculation\<close> with every literal and every operation rounded: the table,
  the row operation \<^verbatim>\<open>a * row1 + b * row2\<close> and the \<^verbatim>\<open>if/elif\<close> chain.
\<close>

definition parameter_levels_b64 :: "real list list" where
  "parameter_levels_b64 =
     [[0, 1295, b64 (b64 3.9660 * b64 0.1), b64 (b64 5.4995 * b64 0.001)],
      [b64 0.2, 1377, b64 (b64 4.4589 * b64 0.1), b64 (b64 5.5508 * b64 0.001)],
      [b64 0.4, 1476, b64 (b64 4.8604 * b64 0.1), b64 (b64 5.5413 * b64 0.001)],
      [b64 0.6, 1773, b64 (b64 5.9902 * b64 0.1), b64 (b64 5.5512 * b64 0.001)],
      [b64 0.8, 3109, b64 (b64 8.3901 * b64 0.1), b64 (b64 5.5956 * b64 0.001)]]"

definition interpolate_b64 :: "real \<Rightarrow> real list \<Rightarrow> real \<Rightarrow> real list \<Rightarrow> real list" where
  "interpolate_b64 a row1 b row2 =
     map2 (\<lambda>x y. b64 (x + y)) (map (\<lambda>x. b64 (a * x)) row1) (map (\<lambda>y. b64 (b * y)) row2)"

definition parameter_calculation_b64 :: "real \<Rightarrow> real list" where
  "parameter_calculation_b64 rho =
     (if rho < 0 then parameter_levels_b64 ! 1
      else if rho < b64 0.2 then
        interpolate_b64 (b64 (b64 (b64 0.2 - rho) / b64 0.2)) (parameter_levels_b64 ! 0)
          (b64 (b64 (rho - 0) / b64 0.2)) (parameter_levels_b64 ! 1)
      else if rho < b64 0.4 then
        interpolate_b64 (b64 (b64 (b64 0.4 - rho) / b64 0.2)) (parameter_levels_b64 ! 1)
          (b64 (b64 (rho - b64 0.2) / b64 0.2)) (parameter_levels_b64 ! 2)
      else if rho < b64 0.6 then
        interpolate_b64 (b64 (b64 (b64 0.6 - rho) / b64 0.2)) (parameter_levels_b64 ! 2)
          (b64 (b64 (rho - b64 0.4) / b64 0.2)) (parameter_levels_b64 ! 3)
      else if rho < b64 0.8 then
        interpolate_b64 (b64 (b64 (b64 0.8 - rho) / b64 0.2)) (parameter_levels_b64 ! 3)
          (b64 (b64 (rho - b64 0.6) / b64 0.2)) (parameter_levels_b64 ! 4)
      else if rho < 1.0 then
        interpolate_b64 (b64 (b64 (b64 0.8 - rho) / b64 0.2)) (parameter_levels_b64 ! 3)
          (b64 (b64 (rho - b64 0.6) / b64 0.2)) (parameter_levels_b64 ! 4)
      else parameter_levels_b64 ! 1)"

subsection \<open>Number of trials and the Bonferroni adjustment\<close>

text \<open>Python's \<^verbatim>\<open>int()\<close> on a float truncates towards zero.\<close>

definition py_int :: "real \<Rightarrow> int" where
  "py_int x = (if 0 \<le> x then \<lfloor>x\<rfloor> else \<lceil>x\<rceil>)"

text \<open>
  \<^verbatim>\<open>int((np.floor(num_mult_test / parameters[1]) + 1) * np.floor(parameters[1] + 1))\<close>,
  with \<open>n\<close> for \<^verbatim>\<open>parameters[1]\<close>.
\<close>

definition num_trails :: "int \<Rightarrow> real \<Rightarrow> int" where
  "num_trails num_mult_test n =
     py_int ((of_int \<lfloor>real_of_int num_mult_test / n\<rfloor> + 1) * of_int \<lfloor>n + 1\<rfloor>)"

text \<open>\<^verbatim>\<open>np.minimum(num_mult_test * p_val, 1)\<close>.\<close>

definition bonferroni :: "int \<Rightarrow> real \<Rightarrow> real" where
  "bonferroni num_mult_test p_val = min (real_of_int num_mult_test * p_val) 1"

subsection \<open>Indexing, slicing and reductions\<close>

text \<open>Python indexing: a negative index counts from the end, out of range raises.\<close>

definition py_index :: "'a list \<Rightarrow> int \<Rightarrow> error + 'a" where
  "py_index xs i =
     (let n = int (length xs); j = (if i < 0 then n + i else i)
      in if 0 \<le> j \<and> j < n then Inr (xs ! nat j) else Inl IndexError)"

text \<open>The slice \<^verbatim>\<open>xs[start:stop]\<close>: the bounds are normalised and clipped, never raising.\<close>

definition py_slice :: "'a list \<Rightarrow> int \<Rightarrow> int \<Rightarrow> 'a list" where
  "py_slice xs start stop =
     (let n = int (length xs);
          s = (if start < 0 then max (start + n) 0 else min start n);
          e = (if stop < 0 then max (stop + n) 0 else min stop n)
      in take (nat (e - s)) (drop (nat s) xs))"

text \<open>Python's \<^verbatim>\<open>max\<close> of a sequence; the empty sequence raises \<^verbatim>\<open>ValueError\<close>.\<close>

fun py_max :: "real list \<Rightarrow> error + real" where
  "py_max [] = Inl ValueError"
| "py_max [x] = Inr x"
| "py_max (x # y # ys) = (case py_max (y # ys) of Inl e \<Rightarrow> Inl e | Inr m \<Rightarrow> Inr (max x m))"

text \<open>
  Boolean-mask indexing \<^verbatim>\<open>values[all_p_values == p_val]\<close>: the mask has the length
  of \<^verbatim>\<open>all_p_values\<close> and must have the length of \<^verbatim>\<open>values\<close>.
\<close>

definition mask_select :: "real list \<Rightarrow> real list \<Rightarrow> real \<Rightarrow> error + real list" where
  "mask_select vals all_p_values p_val =
     (if length vals \<noteq> length all_p_values then Inl IndexError
      else Inr (map fst (filter (\<lambda>(v, p). p = p_val) (zip vals all_p_values))))"

text \<open>\<^verbatim>\<open>np.median\<close>: NaN on an empty array.\<close>

definition median :: "real list \<Rightarrow> npfloat" where
  "median xs =
     (if xs = [] then None
      else (let s = sort xs; n = length xs
            in Some (if odd n then s ! (n div 2) else (s ! (n div 2 - 1) + s ! (n div 2)) / 2)))"

subsection \<open>The Holm method\<close>

text \<open>The inner loop \<^verbatim>\<open>for j in range(1, i + 1)\<close>, appending to \<^verbatim>\<open>p_adjusted_holm\<close>.\<close>

fun holm_inner :: "real list \<Rightarrow> int \<Rightarrow> int list \<Rightarrow> real list \<Rightarrow> error + real list" where
  "holm_inner all_p_values num_mult_test [] p_adjusted_holm = Inr p_adjusted_holm"
| "holm_inner all_p_values num_mult_test (j # js) p_adjusted_holm =
     (case py_index all_p_values (j - 1) of
        Inl e \<Rightarrow> Inl e
      | Inr p \<Rightarrow>
          holm_inner all_p_values num_mult_test js
            (p_adjusted_holm @ [real_of_int (num_mult_test + 1 - j + 1) * p]))"

text \<open>The outer loop \<^verbatim>\<open>for i in range(1, num_mult_test + 2)\<close>, appending to \<^verbatim>\<open>p_holm_values\<close>.\<close>

fun holm_outer :: "real list \<Rightarrow> int \<Rightarrow> int list \<Rightarrow> real list \<Rightarrow> error + real list" where
  "holm_outer all_p_values num_mult_test [] p_holm_values = Inr p_holm_values"
| "holm_outer all_p_values num_mult_test (i # is) p_holm_values =
     (case holm_inner all_p_values num_mult_test [1..i] [] of
        Inl e \<Rightarrow> Inl e
      | Inr p_adjusted_holm \<Rightarrow>
          (case py_max p_adjusted_holm of
             Inl e \<Rightarrow> Inl e
           | Inr m \<Rightarrow> holm_outer all_p_values num_mult_test is (p_holm_values @ [min m 1])))"

text \<open>The array \<^verbatim>\<open>p_holm_values\<close> when the loops are done.\<close>

definition p_holm_values :: "real list \<Rightarrow> int \<Rightarrow> error + real list" where
  "p_holm_values all_p_values num_mult_test =
     holm_outer all_p_values num_mult_test [1..num_mult_test + 1] []"

text \<open>
  The Holm sequence in the words of the specification, for comparison with the loops:
  the entry of rank \<open>i\<close> is the maximum of \<open>(M - j + 2) * p_(j)\<close> over \<open>j = 1..i\<close>,
  capped at 1.
\<close>

definition holm_running_max :: "real list \<Rightarrow> int \<Rightarrow> int \<Rightarrow> real" where
  "holm_running_max all_p_values num_mult_test i =
     min (Max ((\<lambda>j. real_of_int (num_mult_test - j + 2) * all_p_values ! nat (j - 1)) ` {1..i})) 1"

definition holm_method :: "real list \<Rightarrow> int \<Rightarrow> real \<Rightarrow> error + real" where
  "holm_method all_p_values num_mult_test p_val =
     (case p_holm_values all_p_values num_mult_test of
        Inl e \<Rightarrow> Inl e
      | Inr vals \<Rightarrow>
          (case mask_select vals all_p_values p_val of
             Inl e \<Rightarrow> Inl e
           | Inr p_holm_significant \<Rightarrow> py_index p_holm_significant 0))"

subsection \<open>The BHY method\<close>

text \<open>\<^verbatim>\<open>sum(1 / np.arange(1, num_mult_test + 1))\<close>.\<close>

definition c_constant :: "int \<Rightarrow> real" where
  "c_constant num_mult_test = sum_list (map (\<lambda>k. 1 / real_of_int k) [1..num_mult_test])"

text \<open>
  The loop \<^verbatim>\<open>for i in range(num_mult_test + 1, 0, -1)\<close>: each value is put in front of
  \<^verbatim>\<open>p_bhy_values\<close>; \<^verbatim>\<open>p_previous\<close> is unbound until the first pass has assigned it.
\<close>

fun bhy_loop :: "real list \<Rightarrow> int \<Rightarrow> real \<Rightarrow> int list \<Rightarrow> real option \<Rightarrow> real list \<Rightarrow> error + real list" where
  "bhy_loop all_p_values num_mult_test c [] p_previous p_bhy_values = Inr p_bhy_values"
| "bhy_loop all_p_values num_mult_test c (i # is) p_previous p_bhy_values =
     (if i = num_mult_test + 1 then
        (case py_index all_p_values (- 1) of
           Inl e \<Rightarrow> Inl e
         | Inr p_adjusted \<Rightarrow>
             bhy_loop all_p_values num_mult_test c is (Some p_adjusted) (p_adjusted # p_bhy_values))
      else
        (case py_index all_p_values (i - 1) of
           Inl e \<Rightarrow> Inl e
         | Inr p \<Rightarrow>
             (case p_previous of
                None \<Rightarrow> Inl UnboundLocalError
              | Some prev \<Rightarrow>
                  (let p_adjusted = min ((real_of_int (num_mult_test + 1) * c / real_of_int i) * p) prev
                   in bhy_loop all_p_values num_mult_test c is (Some p_adjusted) (p_adjusted # p_bhy_values)))))"

definition p_bhy_values :: "real list \<Rightarrow> int \<Rightarrow> error + real list" where
  "p_bhy_values all_p_values num_mult_test =
     bhy_loop all_p_values num_mult_test (c_constant num_mult_test)
       (rev [1..num_mult_test + 1]) None []"

text \<open>\<^verbatim>\<open>_bhy_method\<close> returns the whole selection, an array.\<close>

definition bhy_method :: "real list \<Rightarrow> int \<Rightarrow> real \<Rightarrow> error + real list" where
  "bhy_method all_p_values num_mult_test p_val =
     (case p_bhy_values all_p_values num_mult_test of
        Inl e \<Rightarrow> Inl e
      | Inr vals \<Rightarrow> mask_select vals all_p_values p_val)"

text \<open>
  \<^verbatim>\<open>p_bhy[k] = value\<close> where the value is an array: NumPy stores the element of an array
  of size one and raises \<^verbatim>\<open>ValueError\<close> for any other size.
\<close>

definition assign_array :: "real list \<Rightarrow> nat \<Rightarrow> real list \<Rightarrow> error + real list" where
  "assign_array target k value =
     (case value of
        [v] \<Rightarrow> (if k < length target then Inr (target[k := v]) else Inl IndexError)
      | _ \<Rightarrow> Inl ValueError)"

subsection \<open>The library functions and the random panel\<close>

text \<open>
  The SciPy distribution functions and the random draw are parameters of the model:
  \<open>t_cdf x df\<close> is \<^verbatim>\<open>ss.t.cdf(x, df)\<close>, \<open>norm_cdf x\<close> is \<^verbatim>\<open>ss.norm.cdf(x, 0, 1)\<close>,
  \<open>t_ppf q df\<close> is \<^verbatim>\<open>ss.t.ppf(q, df)\<close> (both Student functions may return NaN, the
  quantile also an infinity), and \<open>sample_random_multest\<close> is
  \<^verbatim>\<open>_sample_random_multest\<close>, whose result depends on NumPy's global random generator
  and which raises where NumPy refuses its shapes.
\<close>

record library =
  t_cdf :: "real \<Rightarrow> real \<Rightarrow> npfloat"
  norm_cdf :: "real \<Rightarrow> real"
  t_ppf :: "real \<Rightarrow> real \<Rightarrow> npfloat"
  sample_random_multest :: "real \<Rightarrow> int \<Rightarrow> real \<Rightarrow> real \<Rightarrow> nat \<Rightarrow> error + real list list"

text \<open>The object: \<^verbatim>\<open>__init__\<close> sets \<^verbatim>\<open>self.simulations = 2000\<close>.\<close>

record CampbellBacktesting =
  simulations :: nat

definition init :: CampbellBacktesting where
  "init = \<lparr>simulations = 2000\<rparr>"

subsection \<open>The haircut\<close>

text \<open>
  NumPy arithmetic: the square root of a negative \<^verbatim>\<open>monthly_obs\<close> is NaN, a division
  by zero gives an infinity or NaN, and a non-finite operand gives a non-finite result
  in each of these expressions.
\<close>

definition sharpe_ratio_haircut :: "library \<Rightarrow> npfloat \<Rightarrow> real \<Rightarrow> real \<Rightarrow> npfloat \<times> npfloat" where
  "sharpe_ratio_haircut lib p_val monthly_obs sr_annual =
     (let z_score = (case p_val of None \<Rightarrow> None | Some p \<Rightarrow> t_ppf lib (1 - p / 2) (monthly_obs - 1));
          sr_adjusted =
            (case z_score of
               None \<Rightarrow> None
             | Some z \<Rightarrow> if monthly_obs \<le> 0 then None else Some ((z / sqrt monthly_obs) * sqrt 12));
          haircut =
            (case sr_adjusted of
               None \<Rightarrow> None
             | Some s \<Rightarrow> if sr_annual = 0 then None else Some ((sr_annual - s) / sr_annual * 100))
      in (sr_adjusted, haircut))"

subsection \<open>The orchestrator\<close>

text \<open>
  \<^verbatim>\<open>p_val = 2 * (1 - ss.t.cdf(t_ratio, monthly_obs - 1))\<close> with
  \<^verbatim>\<open>t_ratio = sr_monthly * monthly_obs ** (1 / 2)\<close> and
  \<^verbatim>\<open>sr_monthly = sr_annual / 12 ** (1 / 2)\<close>.
\<close>

definition p_value :: "library \<Rightarrow> real \<Rightarrow> real \<Rightarrow> npfloat" where
  "p_value lib sr_annual monthly_obs =
     (if monthly_obs < 0 then None
      else (let sr_monthly = sr_annual / sqrt 12;
                t_ratio = sr_monthly * sqrt monthly_obs
            in map_option (\<lambda>c. 2 * (1 - c)) (t_cdf lib t_ratio (monthly_obs - 1))))"

text \<open>\<^verbatim>\<open>t_sample[simulation_number - 1, 1:(num_mult_test + 1)]\<close>.\<close>

definition t_values_simulation :: "real list list \<Rightarrow> int \<Rightarrow> int \<Rightarrow> error + real list" where
  "t_values_simulation t_sample simulation_number num_mult_test =
     (case py_index t_sample (simulation_number - 1) of
        Inl e \<Rightarrow> Inl e
      | Inr row \<Rightarrow> Inr (py_slice row 1 (num_mult_test + 1)))"

text \<open>\<^verbatim>\<open>np.sort(np.append(2 * (1 - ss.norm.cdf(t_values_simulation, 0, 1)), p_val))\<close>.\<close>

definition all_p_values_of :: "library \<Rightarrow> real list \<Rightarrow> real \<Rightarrow> real list" where
  "all_p_values_of lib t_values p_val =
     sort (map (\<lambda>t. 2 * (1 - norm_cdf lib t)) t_values @ [p_val])"

text \<open>
  One pass of the loop over the simulations. A NaN \<^verbatim>\<open>p_val\<close> equals no entry of
  \<^verbatim>\<open>all_p_values\<close>, so that \<^verbatim>\<open>_holm_method\<close> ends in \<^verbatim>\<open>IndexError\<close>, whether in its
  loops or at \<^verbatim>\<open>p_holm_significant[0]\<close>. The progress \<^verbatim>\<open>print\<close> is left out.
\<close>

definition one_simulation ::
  "library \<Rightarrow> real list list \<Rightarrow> int \<Rightarrow> npfloat \<Rightarrow> int \<Rightarrow> real list \<times> real list \<Rightarrow> error + real list \<times> real list" where
  "one_simulation lib t_sample num_mult_test p_val simulation_number arrays =
     (case t_values_simulation t_sample simulation_number num_mult_test of
        Inl e \<Rightarrow> Inl e
      | Inr t_values \<Rightarrow>
          (case p_val of
             None \<Rightarrow> Inl IndexError
           | Some p \<Rightarrow>
               (let all_p_values = all_p_values_of lib t_values p
                in case holm_method all_p_values num_mult_test p of
                     Inl e \<Rightarrow> Inl e
                   | Inr h \<Rightarrow>
                       (if \<not> nat (simulation_number - 1) < length (fst arrays) then Inl IndexError
                        else
                          (case bhy_method all_p_values num_mult_test p of
                             Inl e \<Rightarrow> Inl e
                           | Inr b \<Rightarrow>
                               (case assign_array (snd arrays) (nat (simulation_number - 1)) b of
                                  Inl e \<Rightarrow> Inl e
                                | Inr p_bhy \<Rightarrow>
                                    Inr ((fst arrays)[nat (simulation_number - 1) := h], p_bhy)))))))"

fun simulation_loop ::
  "library \<Rightarrow> real list list \<Rightarrow> int \<Rightarrow> npfloat \<Rightarrow> int list \<Rightarrow> real list \<times> real list \<Rightarrow> error + real list \<times> real list" where
  "simulation_loop lib t_sample num_mult_test p_val [] arrays = Inr arrays"
| "simulation_loop lib t_sample num_mult_test p_val (k # ks) arrays =
     (case one_simulation lib t_sample num_mult_test p_val k arrays of
        Inl e \<Rightarrow> Inl e
      | Inr arrays' \<Rightarrow> simulation_loop lib t_sample num_mult_test p_val ks arrays')"

text \<open>The mean of three NumPy values; NaN if one of them is.\<close>

definition average3 :: "npfloat \<Rightarrow> npfloat \<Rightarrow> npfloat \<Rightarrow> npfloat" where
  "average3 a b c =
     (case a of None \<Rightarrow> None | Some x \<Rightarrow>
        (case b of None \<Rightarrow> None | Some y \<Rightarrow>
           (case c of None \<Rightarrow> None | Some z \<Rightarrow> Some ((x + y + z) / 3))))"

text \<open>The lines after the loop: the three rows of the table.\<close>

definition results_table ::
  "library \<Rightarrow> int \<Rightarrow> npfloat \<Rightarrow> real \<Rightarrow> real \<Rightarrow> real list \<Rightarrow> real list \<Rightarrow> npfloat list list" where
  "results_table lib num_mult_test p_val monthly_obs sr_annual p_holm p_bhy =
     (let p_val_adj3 = [map_option (bonferroni num_mult_test) p_val, median p_holm, median p_bhy];
          p_val_adj = p_val_adj3 @ [average3 (p_val_adj3 ! 0) (p_val_adj3 ! 1) (p_val_adj3 ! 2)];
          r0 = sharpe_ratio_haircut lib (p_val_adj ! 0) monthly_obs sr_annual;
          r1 = sharpe_ratio_haircut lib (p_val_adj ! 1) monthly_obs sr_annual;
          r2 = sharpe_ratio_haircut lib (p_val_adj ! 2) monthly_obs sr_annual;
          r3 = sharpe_ratio_haircut lib (p_val_adj ! 3) monthly_obs sr_annual;
          sr_adj = [fst r0, fst r1, fst r2, fst r3];
          haircut = [snd r0, snd r1, snd r2, snd r3]
      in [p_val_adj, sr_adj, haircut])"

text \<open>
  The method \<^verbatim>\<open>haircut_sharpe_ratios\<close>. Where the normalized Sharpe ratio is a complex
  number (\<open>ComplexResult\<close>) Python raises nothing: the code goes on with the complex
  number into the SciPy calls, which the model does not follow. There the model has no
  result, \<open>None\<close>. Everywhere else the result is \<open>Some r\<close>, with \<open>r\<close> the exception raised
  or the table returned.
\<close>

definition haircut_sharpe_ratios ::
  "library \<Rightarrow> CampbellBacktesting \<Rightarrow> string \<Rightarrow> int \<Rightarrow> real \<Rightarrow> bool \<Rightarrow> bool \<Rightarrow> real \<Rightarrow> int \<Rightarrow> real
     \<Rightarrow> (error + npfloat list list) option" where
  "haircut_sharpe_ratios lib self sampling_frequency num_obs sharpe_ratio annualized
       autocorr_adjusted rho_a num_mult_test rho =
     (case annualized_sharpe_ratio sharpe_ratio sampling_frequency rho_a annualized autocorr_adjusted of
        Inl e \<Rightarrow> (if e = ComplexResult then None else Some (Inl e))
      | Inr sr_annual \<Rightarrow>
          Some
          (let parameters = parameter_calculation rho;
               monthly_obs = monthly_observations num_obs sampling_frequency;
               num_trails = num_trails num_mult_test (parameters ! 1)
           in case sample_random_multest lib (parameters ! 0) num_trails (parameters ! 2)
                     (parameters ! 3) (simulations self) of
                Inl e \<Rightarrow> Inl e
              | Inr t_sample \<Rightarrow>
                  (let p_val = p_value lib sr_annual monthly_obs
                   in case simulation_loop lib t_sample num_mult_test p_val
                             [1..int (simulations self)]
                             (replicate (simulations self) 1, replicate (simulations self) 1) of
                        Inl e \<Rightarrow> Inl e
                      | Inr arrays \<Rightarrow>
                          Inr (results_table lib num_mult_test p_val monthly_obs sr_annual
                                 (fst arrays) (snd arrays)))))"

subsection \<open>A library to run the model on\<close>

text \<open>
  Concrete inputs need concrete library functions. \<open>step_library\<close> replaces the
  distribution functions by step functions that agree with SciPy wherever SciPy's value
  is a known rational: \<^verbatim>\<open>t.cdf(0, df) = 0.5\<close> and \<^verbatim>\<open>t.ppf(0.5, df) = 0\<close> for
  \<open>df > 0\<close>, \<^verbatim>\<open>norm.cdf(0) = 0.5\<close>, NaN for \<open>df \<le> 0\<close>, and a non-finite quantile at
  the probabilities 0 and 1 and outside \<open>[0, 1]\<close>. Elsewhere they take one value on
  the right side of one half. The panel is the fixed grid whose rows are
  \<open>1, 2, ..., n_trails\<close>; as NumPy does, the draw raises \<^verbatim>\<open>ValueError\<close> when
  \<open>n_trails - 1\<close> is negative.
\<close>

definition grid_panel :: "nat \<Rightarrow> nat \<Rightarrow> real list list" where
  "grid_panel n_simulations n_trails = replicate n_simulations (map real [1..<Suc n_trails])"

definition step_library :: library where
  "step_library =
     \<lparr>t_cdf = (\<lambda>x df. if df \<le> 0 then None
                      else Some (if x = 0 then 1 / 2 else if x < 0 then 1 / 5 else 4 / 5)),
      norm_cdf = (\<lambda>x. if x = 0 then 1 / 2 else if x < 0 then 1 / 10 else 9 / 10),
      t_ppf = (\<lambda>q df. if df \<le> 0 \<or> q \<le> 0 \<or> 1 \<le> q then None
                      else Some (if q = 1 / 2 then 0 else if q < 1 / 2 then - 1 else 1)),
      sample_random_multest = (\<lambda>rho n_trails prob_zero_mean lambd n_simulations.
         if n_trails \<le> 0 then Inl ValueError
         else Inr (grid_panel n_simulations (nat n_trails)))\<rparr>"

section \<open>Properties\<close>

subsection \<open>Shapes and ranges used throughout\<close>

lemma length_parameter_calculation: "length (parameter_calculation rho) = 4"
  by (simp add: parameter_calculation_def parameter_levels_def interpolate_def)

lemma n_trials_parameter_pos: "0 < parameter_calculation rho ! 1"
  by (simp add: parameter_calculation_def parameter_levels_def interpolate_def)

lemma num_trails_gt:
  assumes "0 < M" and "0 < n"
  shows "M + 1 \<le> num_trails M n"
proof -
  let ?a = "of_int \<lfloor>real_of_int M / n\<rfloor> + (1::real)"
  let ?b = "of_int \<lfloor>n + 1\<rfloor> :: real"
  have a: "real_of_int M / n < ?a" by linarith
  have b: "n < ?b" by linarith
  have a0: "0 < real_of_int M / n" using assms by simp
  have "real_of_int M = (real_of_int M / n) * n" using assms by simp
  also have "\<dots> < ?a * ?b"
  proof (rule mult_strict_mono)
    show "real_of_int M / n < ?a" by (rule a)
    show "n < ?b" by (rule b)
    show "0 < ?a" using a a0 by linarith
    show "0 \<le> n" using assms by simp
  qed
  finally have lt: "real_of_int M < ?a * ?b" .
  have "?a * ?b = of_int ((\<lfloor>real_of_int M / n\<rfloor> + 1) * \<lfloor>n + 1\<rfloor>)" by simp
  then obtain k :: int where k: "?a * ?b = of_int k" by blast
  with lt have Mk: "M < k" by simp
  have "0 \<le> real_of_int k" using lt k assms by linarith
  then have "num_trails M n = k" unfolding num_trails_def py_int_def k by simp
  with Mk show ?thesis by simp
qed

lemma length_py_slice_from_1:
  assumes "0 \<le> M" and "M + 1 \<le> int (length row)"
  shows "int (length (py_slice row 1 (M + 1))) = M"
  using assms by (auto simp: py_slice_def Let_def min_def)

subsection \<open>Frequency lookups\<close>

text \<open>
  C3, as the code has it. For a sampling frequency outside D, W, M, Q, A the normalizer
  uses \<open>times_per_year = 1\<close>, as for A, and returns what it returns for A; the number of
  monthly observations is \<open>floor(num_obs)\<close>, which is the result for M and not the result
  for A (\<open>floor(num_obs * 12)\<close>).
\<close>

theorem unknown_frequency_lookups:
  assumes "sampling_frequency \<notin> {''D'', ''W'', ''M'', ''Q'', ''A''}"
  shows "times_per_year sampling_frequency = 1
       \<and> times_per_year sampling_frequency = times_per_year ''A''
       \<and> annualized_sharpe_ratio sr sampling_frequency rho ann adj
           = annualized_sharpe_ratio sr ''A'' rho ann adj
       \<and> monthly_observations num_obs sampling_frequency = of_int num_obs
       \<and> monthly_observations num_obs sampling_frequency = monthly_observations num_obs ''M''"
  using assms
  by (simp add: times_per_year_def monthly_observations_def annualized_sharpe_ratio_def
      autocorr_multiplier_def annual_multiplier_def)

theorem unknown_frequency_lookups_witness:
  "''X'' \<notin> {''D'', ''W'', ''M'', ''Q'', ''A''}
   \<and> times_per_year ''X'' = 1
   \<and> annualized_sharpe_ratio 2 ''X'' 0 False False = annualized_sharpe_ratio 2 ''A'' 0 False False
   \<and> monthly_observations 7 ''X'' = 7
   \<and> monthly_observations 7 ''X'' = monthly_observations 7 ''M''"
proof -
  have h: "''X'' \<notin> {''D'', ''W'', ''M'', ''Q'', ''A''}" by simp
  show ?thesis
    using h unknown_frequency_lookups [OF h, of 2 0 False False 7] by simp
qed

text \<open>
  C3 as it is stated fails: with one observation, an unknown frequency code gives one
  monthly observation and the Annual code gives twelve.
\<close>

theorem unknown_frequency_monthly_counterexample:
  "''X'' \<notin> {''D'', ''W'', ''M'', ''Q'', ''A''}
   \<and> monthly_observations 1 ''X'' = 1
   \<and> monthly_observations 1 ''A'' = 12
   \<and> monthly_observations 1 ''X'' \<noteq> monthly_observations 1 ''A''"
  by (simp add: monthly_observations_def)

text \<open>
  C7. With \<open>annualized\<close> and \<open>autocorr_adjusted\<close> both true the normalizer returns the
  Sharpe ratio it was given, whatever the frequency code and the autocorrelation.
\<close>

theorem annualized_adjusted_is_identity:
  "annualized_sharpe_ratio sharpe_ratio sampling_frequency rho True True = Inr sharpe_ratio"
  by (simp add: annualized_sharpe_ratio_def autocorr_multiplier_def annual_multiplier_def)

subsection \<open>Parameter estimation\<close>

text \<open>
  In exact real arithmetic the interpolation weights at \<open>rho = 0.2\<close> and \<open>rho = 0.4\<close>
  are 1 and 0 and the result is the table row of the anchor.
\<close>

lemma parameter_calculation_exact_anchors:
  "parameter_calculation 0.2 = [0.2, 1377, 0.44589, 0.0055508]
   \<and> parameter_calculation 0.4 = [0.4, 1476, 0.48604, 0.0055413]
   \<and> parameter_calculation 0.2 = parameter_levels ! 1
   \<and> parameter_calculation 0.4 = parameter_levels ! 2"
  by (simp add: parameter_calculation_def parameter_levels_def interpolate_def)

text \<open>Rounding to binary64: bounds, evaluation at a known exponent, idempotence.\<close>

lemma round_half_even_of_int [simp]: "round_half_even (of_int k) = k"
  by (simp add: round_half_even_def)

lemma round_half_even_bounds: "\<lfloor>y\<rfloor> \<le> round_half_even y" "round_half_even y \<le> \<lceil>y\<rceil>"
proof -
  show "\<lfloor>y\<rfloor> \<le> round_half_even y" by (simp add: round_half_even_def Let_def)
  show "round_half_even y \<le> \<lceil>y\<rceil>"
  proof (cases "y = of_int \<lfloor>y\<rfloor>")
    case True
    then have "round_half_even y = \<lfloor>y\<rfloor>"
      by (metis round_half_even_of_int)
    then show ?thesis by (simp add: floor_le_ceiling)
  next
    case False
    then have "\<lceil>y\<rceil> = \<lfloor>y\<rfloor> + 1" by (simp add: ceiling_altdef)
    then show ?thesis by (simp add: round_half_even_def Let_def)
  qed
qed

lemma b64_exponent:
  assumes "x \<noteq> 0" and "2 powr of_int e \<le> \<bar>x\<bar>" and "\<bar>x\<bar> < 2 powr (of_int e + 1)"
  shows "b64 x = of_int (round_half_even (x / 2 powr (of_int e - 52))) * 2 powr (of_int e - 52)"
proof -
  have "\<lfloor>log 2 \<bar>x\<bar>\<rfloor> = e"
    using assms by (subst floor_log_eq_powr_iff) auto
  then show ?thesis using assms(1) by (simp add: b64_def Let_def)
qed

lemma b64_small:
  assumes "1 \<le> \<bar>x\<bar> * 2 ^ n" and "\<bar>x\<bar> * 2 ^ n < 2"
  shows "b64 x = of_int (round_half_even (x * 2 ^ (n + 52))) / 2 ^ (n + 52)"
proof -
  have x: "x \<noteq> 0" using assms by auto
  have p: "(2::real) powr of_int (- int n) = 1 / 2 ^ n"
    "(2::real) powr (of_int (- int n) + 1) = 2 / 2 ^ n"
    by (simp_all add: powr_minus powr_realpow powr_diff divide_simps)
  have "(2::real) powr (of_int (- int n) - 52) = 2 powr (- real (n + 52))"
    by simp
  also have "\<dots> = 1 / 2 ^ (n + 52)"
    by (simp only: powr_minus powr_realpow) (simp add: divide_simps)
  finally have u: "(2::real) powr (of_int (- int n) - 52) = 1 / 2 ^ (n + 52)" .
  have "2 powr of_int (- int n) \<le> \<bar>x\<bar>" "\<bar>x\<bar> < 2 powr (of_int (- int n) + 1)"
    unfolding p using assms by (simp_all add: divide_simps)
  from b64_exponent [OF x this] show ?thesis unfolding u by simp
qed

lemma b64_large:
  assumes "2 ^ n \<le> \<bar>x\<bar>" and "\<bar>x\<bar> < 2 * 2 ^ n" and "n \<le> 52"
  shows "b64 x = of_int (round_half_even (x * 2 ^ (52 - n))) / 2 ^ (52 - n)"
proof -
  have x: "x \<noteq> 0" using assms by auto
  have p: "(2::real) powr of_int (int n) = 2 ^ n" "(2::real) powr (of_int (int n) + 1) = 2 * 2 ^ n"
    by (simp_all add: powr_realpow powr_add)
  have "(2::real) powr (of_int (int n) - 52) = 2 powr (- real (52 - n))"
    using assms(3) by (simp add: of_nat_diff)
  also have "\<dots> = 1 / 2 ^ (52 - n)"
    by (simp add: powr_minus powr_realpow divide_simps)
  finally have u: "(2::real) powr (of_int (int n) - 52) = 1 / 2 ^ (52 - n)" .
  have "2 powr of_int (int n) \<le> \<bar>x\<bar>" "\<bar>x\<bar> < 2 powr (of_int (int n) + 1)"
    unfolding p using assms by simp_all
  from b64_exponent [OF x this] show ?thesis unfolding u by simp
qed

lemma round_half_even_abs_bounds:
  assumes "of_int N \<le> \<bar>y\<bar>" and "\<bar>y\<bar> < of_int K" and "0 \<le> N"
  shows "N \<le> \<bar>round_half_even y\<bar>" and "\<bar>round_half_even y\<bar> \<le> K"
proof -
  note b = round_half_even_bounds [of y]
  show "N \<le> \<bar>round_half_even y\<bar>"
  proof (cases "0 \<le> y")
    case True
    with assms have "N \<le> \<lfloor>y\<rfloor>" by (simp add: le_floor_iff)
    with b show ?thesis by linarith
  next
    case False
    with assms have "\<lceil>y\<rceil> \<le> - N" by (simp add: ceiling_le_iff)
    with b show ?thesis by linarith
  qed
  show "\<bar>round_half_even y\<bar> \<le> K"
  proof (cases "0 \<le> y")
    case True
    with assms have "\<lceil>y\<rceil> \<le> K" "0 \<le> \<lfloor>y\<rfloor>" by (simp_all add: ceiling_le_iff)
    with b show ?thesis by linarith
  next
    case False
    with assms have "- K \<le> \<lfloor>y\<rfloor>" "\<lceil>y\<rceil> \<le> 0" by (simp_all add: le_floor_iff ceiling_le_iff)
    with b show ?thesis by linarith
  qed
qed

lemma b64_idem: "b64 (b64 x) = b64 x"
proof (cases "x = 0")
  case True
  then show ?thesis by (simp add: b64_def)
next
  case False
  define e where "e = \<lfloor>log 2 \<bar>x\<bar>\<rfloor>"
  define u where "u = (2::real) powr (of_int e - 52)"
  define m where "m = round_half_even (x / u)"
  have u0: "0 < u" by (simp add: u_def)
  have bx: "b64 x = of_int m * u"
    using False by (simp add: b64_def Let_def e_def u_def m_def)
  have "\<lfloor>log 2 \<bar>x\<bar>\<rfloor> = e" by (simp add: e_def)
  then have lo: "2 powr of_int e \<le> \<bar>x\<bar>" and hi: "\<bar>x\<bar> < 2 powr (of_int e + 1)"
    using False by (simp_all add: floor_log_eq_powr_iff)
  have p52: "(2::real) powr 52 = 2 ^ 52" by (simp add: powr_numeral)
  have pu: "2 powr of_int e = 2 ^ 52 * u"
    unfolding u_def powr_diff p52 by simp
  have pu1: "2 powr (of_int e + 1) = 2 ^ 53 * u"
    unfolding powr_add pu by simp
  have pu2: "2 powr (of_int (e + 1) - 52) = 2 * u"
    unfolding u_def by (simp add: powr_diff powr_add)
  have y1: "of_int (2 ^ 52) \<le> \<bar>x / u\<bar>"
    using lo u0 unfolding pu by (simp add: abs_divide pos_le_divide_eq)
  have y2: "\<bar>x / u\<bar> < of_int (2 ^ 53)"
    using hi u0 unfolding pu1 by (simp add: abs_divide pos_divide_less_eq)
  from round_half_even_abs_bounds [OF y1 y2]
  have m1: "2 ^ 52 \<le> \<bar>m\<bar>" and m2: "\<bar>m\<bar> \<le> 2 ^ 53" by (simp_all add: m_def)
  let ?z = "of_int m * u"
  have z0: "?z \<noteq> 0" using m1 u0 by auto
  have az: "\<bar>?z\<bar> = of_int \<bar>m\<bar> * u" using u0 by (simp add: abs_mult)
  show ?thesis
  proof (cases "\<bar>m\<bar> = 2 ^ 53")
    case True
    have a: "\<bar>?z\<bar> = 2 powr of_int (e + 1)"
      unfolding az True using pu1 by simp
    have "b64 ?z = of_int (round_half_even (?z / (2 * u))) * (2 * u)"
      using b64_exponent [OF z0, of "e + 1"] unfolding pu2 a by (simp add: powr_add)
    moreover have "m = 2 * 2 ^ 52 \<or> m = 2 * (- (2 ^ 52))"
      using True by (simp add: abs_if split: if_splits)
    then obtain k where k: "m = 2 * k" by blast
    moreover have "?z / (2 * u) = of_int k" using u0 by (simp add: k)
    moreover have "of_int k * (2 * u) = ?z" by (simp add: k)
    ultimately show ?thesis unfolding bx by simp
  next
    case False
    with m2 have m3: "\<bar>m\<bar> < 2 ^ 53" by simp
    have a1: "2 powr of_int e \<le> \<bar>?z\<bar>"
      unfolding az pu using m1 u0
      by (simp add: of_int_le_iff [of "2 ^ 52" "\<bar>m\<bar>", symmetric] del: of_int_le_iff of_int_abs)
    have a2: "\<bar>?z\<bar> < 2 powr (of_int e + 1)"
      unfolding az pu1 using m3 u0
      by (simp add: of_int_less_iff [of "\<bar>m\<bar>" "2 ^ 53", symmetric] del: of_int_less_iff of_int_abs)
    have "b64 ?z = of_int (round_half_even (?z / u)) * u"
      using b64_exponent [OF z0 a1 a2] unfolding u_def by simp
    moreover have "?z / u = of_int m" using u0 by simp
    ultimately show ?thesis unfolding bx by simp
  qed
qed

text \<open>The literals of the table rows of the two anchors, and their products.\<close>

lemma b64_0: "b64 0 = 0"
  by (simp add: b64_def)

lemma b64_0_1: "b64 0.1 = 3602879701896397 / 2 ^ 55"
  by (subst b64_small [where n = 4]) (simp_all add: round_half_even_def)

lemma b64_0_001: "b64 0.001 = 1152921504606847 / 2 ^ 60"
  by (subst b64_small [where n = 10]) (simp_all add: round_half_even_def)

lemma b64_0_2: "b64 0.2 = 3602879701896397 / 2 ^ 54"
  by (subst b64_small [where n = 3]) (simp_all add: round_half_even_def)

lemma b64_0_4: "b64 0.4 = 3602879701896397 / 2 ^ 53"
  by (subst b64_small [where n = 2]) (simp_all add: round_half_even_def)

lemma b64_0_6: "b64 0.6 = 5404319552844595 / 2 ^ 53"
  by (subst b64_small [where n = 1]) (simp_all add: round_half_even_def)

lemma b64_4_4589: "b64 4.4589 = 156883596706893 / 2 ^ 45"
  by (subst b64_large [where n = 2]) (simp_all add: round_half_even_def)

lemma b64_5_5508: "b64 5.5508 = 6249645202902037 / 2 ^ 50"
  by (subst b64_large [where n = 2]) (simp_all add: round_half_even_def)

lemma b64_4_8604: "b64 4.8604 = 2736161953608945 / 2 ^ 49"
  by (subst b64_large [where n = 2]) (simp_all add: round_half_even_def)

lemma b64_5_5413: "b64 5.5413 = 779868644223379 / 2 ^ 47"
  by (subst b64_large [where n = 2]) (simp_all add: round_half_even_def)

lemma b64_0_44589: "b64 0.44589 = 4016220075696461 / 2 ^ 53"
  by (subst b64_small [where n = 2]) (simp_all add: round_half_even_def)

lemma b64_0_0055508: "b64 0.0055508 = 3199818343885843 / 2 ^ 59"
  by (subst b64_small [where n = 8]) (simp_all add: round_half_even_def)

lemma b64_0_48604: "b64 0.48604 = 547232390721789 / 2 ^ 50"
  by (subst b64_small [where n = 2]) (simp_all add: round_half_even_def)

lemma b64_0_0055413: "b64 0.0055413 = 6388683933477921 / 2 ^ 60"
  by (subst b64_small [where n = 8]) (simp_all add: round_half_even_def)

lemma b64_1377: "b64 1377 = 1377"
  by (subst b64_large [where n = 10]) (simp_all add: round_half_even_def)

lemma b64_1476: "b64 1476 = 1476"
  by (subst b64_large [where n = 10]) (simp_all add: round_half_even_def)

lemma product_1_2: "b64 (b64 4.4589 * b64 0.1) = b64 0.44589"
  unfolding b64_4_4589 b64_0_1 b64_0_44589
  by (subst b64_small [where n = 2]) (simp_all add: round_half_even_def)

lemma product_1_3: "b64 (b64 5.5508 * b64 0.001) = b64 0.0055508"
  unfolding b64_5_5508 b64_0_001 b64_0_0055508
  by (subst b64_small [where n = 8]) (simp_all add: round_half_even_def)

lemma product_2_2: "b64 (b64 4.8604 * b64 0.1) = b64 0.48604"
  unfolding b64_4_8604 b64_0_1 b64_0_48604
  by (subst b64_small [where n = 2]) (simp_all add: round_half_even_def)

lemma product_2_3: "b64 (b64 5.5413 * b64 0.001) = b64 0.0055413"
  unfolding b64_5_5413 b64_0_001 b64_0_0055413
  by (subst b64_small [where n = 8]) (simp_all add: round_half_even_def)

text \<open>The weights and the branch taken at the two anchors.\<close>

lemma interpolate_b64_zero:
  "length row1 = length row2 \<Longrightarrow> interpolate_b64 a row1 0 row2 = map (\<lambda>x. b64 (a * x)) row1"
  unfolding interpolate_b64_def
  by (induction row1 row2 rule: list_induct2) (simp_all add: b64_0 b64_idem)

lemma length_parameter_levels_b64:
  "length (parameter_levels_b64 ! 1) = length (parameter_levels_b64 ! 2)"
  "length (parameter_levels_b64 ! 2) = length (parameter_levels_b64 ! 3)"
  by (simp_all add: parameter_levels_b64_def)

lemma b64_1: "b64 1 = 1"
  by (subst b64_large [where n = 0]) (simp_all add: round_half_even_def)

lemma weight_0_2: "b64 (b64 (b64 0.4 - b64 0.2) / b64 0.2) = 1"
proof -
  have "b64 0.4 - b64 0.2 = b64 0.2" unfolding b64_0_4 b64_0_2 by simp
  moreover have "b64 0.2 \<noteq> 0" unfolding b64_0_2 by simp
  ultimately show ?thesis by (simp add: b64_idem b64_1)
qed

lemma weight_0_4: "b64 (b64 (b64 0.6 - b64 0.4) / b64 0.2) = 1 - 1 / 2 ^ 52"
proof -
  have d: "b64 0.6 - b64 0.4 = 900719925474099 / 2 ^ 52"
    unfolding b64_0_6 b64_0_4 by simp
  have bd: "b64 (900719925474099 / 2 ^ 52) = 900719925474099 / 2 ^ 52"
    by (subst b64_small [where n = 3]) (simp_all add: round_half_even_def)
  have q: "900719925474099 / 2 ^ 52 / b64 0.2 = 3602879701896396 / 3602879701896397"
    unfolding b64_0_2 by simp
  have r: "b64 (3602879701896396 / 3602879701896397) = 1 - 1 / 2 ^ 52"
    by (subst b64_small [where n = 1]) (simp_all add: round_half_even_def)
  show ?thesis by (simp only: d bd q r)
qed

lemma weight_zero: "b64 (b64 (x - x) / y) = 0"
  by (simp add: b64_0)

lemma compare_0_2: "\<not> b64 0.2 < 0" "\<not> b64 0.2 < b64 0.2" "b64 0.2 < b64 0.4"
  unfolding b64_0_2 b64_0_4 by simp_all

lemma compare_0_4: "\<not> b64 0.4 < 0" "\<not> b64 0.4 < b64 0.2" "\<not> b64 0.4 < b64 0.4" "b64 0.4 < b64 0.6"
  unfolding b64_0_2 b64_0_4 b64_0_6 by simp_all

lemma parameter_calculation_b64_0_2:
  "parameter_calculation_b64 (b64 0.2) = map (\<lambda>x. b64 (1 * x)) (parameter_levels_b64 ! 1)"
  by (simp only: parameter_calculation_b64_def compare_0_2 if_True if_False weight_0_2
      weight_zero interpolate_b64_zero [OF length_parameter_levels_b64(1)])

lemma parameter_calculation_b64_0_4:
  "parameter_calculation_b64 (b64 0.4)
     = map (\<lambda>x. b64 ((1 - 1 / 2 ^ 52) * x)) (parameter_levels_b64 ! 2)"
  by (simp only: parameter_calculation_b64_def compare_0_4 if_True if_False weight_0_4
      weight_zero interpolate_b64_zero [OF length_parameter_levels_b64(2)])

lemma parameter_levels_b64_1:
  "parameter_levels_b64 ! 1 = [b64 0.2, 1377, b64 0.44589, b64 0.0055508]"
  by (simp only: parameter_levels_b64_def product_1_2 product_1_3 nth_Cons_Suc nth_Cons_0 One_nat_def)

lemma parameter_levels_b64_2:
  "parameter_levels_b64 ! 2 = [b64 0.4, 1476, b64 0.48604, b64 0.0055413]"
  by (simp only: parameter_levels_b64_def product_2_2 product_2_3 nth_Cons_Suc nth_Cons_0
      numeral_2_eq_2)

lemma scaled_0_4: "b64 ((1 - 1 / 2 ^ 52) * b64 0.4) = b64 0.4 - 1 / 2 ^ 53"
  unfolding b64_0_4 by (subst b64_small [where n = 2]) (simp_all add: round_half_even_def)

lemma scaled_1476: "b64 ((1 - 1 / 2 ^ 52) * 1476) = 1476 - 1 / 2 ^ 42"
  by (subst b64_large [where n = 10]) (simp_all add: round_half_even_def)

lemma scaled_0_48604: "b64 ((1 - 1 / 2 ^ 52) * b64 0.48604) = b64 0.48604 - 1 / 2 ^ 53"
  unfolding b64_0_48604 by (subst b64_small [where n = 2]) (simp_all add: round_half_even_def)

lemma scaled_0_0055413: "b64 ((1 - 1 / 2 ^ 52) * b64 0.0055413) = b64 0.0055413 - 1 / 2 ^ 60"
  unfolding b64_0_0055413 by (subst b64_small [where n = 8]) (simp_all add: round_half_even_def)

lemma parameter_calculation_b64_0_2_row:
  "parameter_calculation_b64 (b64 0.2) = [b64 0.2, 1377, b64 0.44589, b64 0.0055508]"
  by (simp only: parameter_calculation_b64_0_2 parameter_levels_b64_1 list.map mult_1 b64_idem
      b64_1377)

lemma parameter_calculation_b64_0_4_row:
  "parameter_calculation_b64 (b64 0.4)
     = [b64 0.4 - 1 / 2 ^ 53, 1476 - 1 / 2 ^ 42, b64 0.48604 - 1 / 2 ^ 53,
        b64 0.0055413 - 1 / 2 ^ 60]"
  by (simp only: parameter_calculation_b64_0_4 parameter_levels_b64_2 list.map scaled_0_4
      scaled_1476 scaled_0_48604 scaled_0_0055413)

text \<open>
  C8, as the code computes it. At the float \<open>0.2\<close> the weights are exactly 1 and 0
  and the result is the table row, which is \<open>[0.2, 1377, 0.44589, 0.0055508]\<close> as
  floats. At the float \<open>0.4\<close> the first weight, \<^verbatim>\<open>(0.6 - 0.4) / 0.2\<close>, is
  \<open>1 - 2^-52\<close> and the result is the table row \<open>[0.4, 1476, 0.48604, 0.0055413]\<close>
  with \<open>2^-53\<close>, \<open>2^-42\<close>, \<open>2^-53\<close> and \<open>2^-60\<close> taken off its entries.
\<close>

theorem parameter_calculation_anchors:
  "parameter_calculation_b64 (b64 0.2) = parameter_levels_b64 ! 1
   \<and> parameter_calculation_b64 (b64 0.2) = [b64 0.2, 1377, b64 0.44589, b64 0.0055508]
   \<and> b64 (b64 (b64 0.4 - b64 0.2) / b64 0.2) = 1
   \<and> b64 (b64 (b64 0.6 - b64 0.4) / b64 0.2) = 1 - 1 / 2 ^ 52
   \<and> parameter_levels_b64 ! 2 = [b64 0.4, 1476, b64 0.48604, b64 0.0055413]
   \<and> parameter_calculation_b64 (b64 0.4)
       = [b64 0.4 - 1 / 2 ^ 53, 1476 - 1 / 2 ^ 42, b64 0.48604 - 1 / 2 ^ 53,
          b64 0.0055413 - 1 / 2 ^ 60]"
  by (simp only: parameter_calculation_b64_0_2_row parameter_levels_b64_1
      parameter_levels_b64_2 weight_0_2 weight_0_4 parameter_calculation_b64_0_4_row simp_thms)

text \<open>
  C8 as it is stated fails at \<open>rho = 0.4\<close>: the second entry of the result is
  \<open>1476 - 2^-42\<close> (\<^verbatim>\<open>1475.9999999999998\<close>), not the \<open>1476\<close> of the table row.
\<close>

theorem parameter_calculation_anchor_0_4_counterexample:
  "parameter_calculation_b64 (b64 0.4) ! 1 = 1476 - 1 / 2 ^ 42
   \<and> parameter_levels_b64 ! 2 ! 1 = 1476
   \<and> parameter_calculation_b64 (b64 0.4) \<noteq> parameter_levels_b64 ! 2"
  by (simp only: parameter_calculation_b64_0_4_row parameter_levels_b64_2 nth_Cons_Suc
      nth_Cons_0 One_nat_def) simp

subsection \<open>Number of trials\<close>

text \<open>
  C4. For a positive \<open>num_mult_test\<close> and a positive \<open>n\<close> the number of trials is at
  least \<open>num_mult_test + 1\<close>; the second table parameter of every \<open>rho\<close> is positive; and
  in a row of that many entries the slice taken by the loop has \<open>num_mult_test\<close> entries.
\<close>

theorem num_trails_at_least:
  assumes "0 < num_mult_test"
  shows "(0 < n \<longrightarrow> num_mult_test + 1 \<le> num_trails num_mult_test n)
       \<and> 0 < parameter_calculation rho ! 1
       \<and> num_mult_test + 1 \<le> num_trails num_mult_test (parameter_calculation rho ! 1)
       \<and> (int (length row) = num_trails num_mult_test (parameter_calculation rho ! 1)
            \<longrightarrow> int (length (py_slice row 1 (num_mult_test + 1))) = num_mult_test)"
proof -
  have p: "0 < parameter_calculation rho ! 1" by (rule n_trials_parameter_pos)
  have g: "num_mult_test + 1 \<le> num_trails num_mult_test (parameter_calculation rho ! 1)"
    using assms p by (rule num_trails_gt)
  have "int (length (py_slice row 1 (num_mult_test + 1))) = num_mult_test"
    if "int (length row) = num_trails num_mult_test (parameter_calculation rho ! 1)"
    using assms g that by (intro length_py_slice_from_1) auto
  with p g assms show ?thesis by (auto intro: num_trails_gt)
qed

theorem num_trails_at_least_witness:
  "(0::int) < 100 \<and> (0::real) < 1476 \<and> (100::int) + 1 \<le> num_trails 100 1476
   \<and> num_trails 100 1476 = 1477
   \<and> 100 + 1 \<le> num_trails 100 (parameter_calculation 0.4 ! 1)"
proof -
  have h: "(0::int) < 100" by simp
  have v: "num_trails 100 1476 = 1477" by (simp add: num_trails_def py_int_def)
  show ?thesis
    using h v num_trails_at_least [OF h, of 1476 "0.4" "[] :: real list"] by simp
qed

subsection \<open>Bonferroni\<close>

text \<open>
  C5, as the code has it. For every \<open>p_real \<ge> 0\<close> and positive integers
  \<open>num_mult_test \<le> num_mult_test'\<close>, the Bonferroni value \<open>min(num_mult_test * p_real, 1)\<close>
  is at most 1 and does not decrease from \<open>num_mult_test\<close> to \<open>num_mult_test'\<close>. It is at
  least \<open>p_real\<close> exactly when \<open>p_real \<le> 1\<close>; for \<open>p_real > 1\<close> it is 1, below \<open>p_real\<close>.
  The value the orchestrator passes, \<^verbatim>\<open>2 * (1 - ss.t.cdf(t_ratio, monthly_obs - 1))\<close>, is
  above 1 whenever the distribution function is below one half, as it is at a negative
  t-ratio, and there the Bonferroni value is below it.
\<close>

theorem bonferroni_bounds:
  assumes "0 \<le> p_real" and "0 < num_mult_test" and "num_mult_test \<le> num_mult_test'"
  shows "bonferroni num_mult_test p_real \<le> 1
       \<and> bonferroni num_mult_test p_real \<le> bonferroni num_mult_test' p_real
       \<and> (p_real \<le> bonferroni num_mult_test p_real \<longleftrightarrow> p_real \<le> 1)
       \<and> (1 < p_real \<longrightarrow> bonferroni num_mult_test p_real = 1 \<and> bonferroni num_mult_test p_real < p_real)
       \<and> (0 \<le> monthly_obs
            \<and> t_cdf lib (sr_annual / sqrt 12 * sqrt monthly_obs) (monthly_obs - 1) = Some c
            \<and> c < 1 / 2
          \<longrightarrow> p_value lib sr_annual monthly_obs = Some (2 * (1 - c))
            \<and> 1 < 2 * (1 - c)
            \<and> bonferroni num_mult_test (2 * (1 - c)) < 2 * (1 - c))"
proof -
  have m1: "1 * p_real \<le> real_of_int num_mult_test * p_real"
    using assms by (intro mult_right_mono) auto
  have m2: "real_of_int num_mult_test * p_real \<le> real_of_int num_mult_test' * p_real"
    using assms by (intro mult_right_mono) auto
  have a: "bonferroni num_mult_test p_real \<le> 1" by (simp add: bonferroni_def)
  have b: "bonferroni num_mult_test p_real \<le> bonferroni num_mult_test' p_real"
    using m2 by (simp add: bonferroni_def min_def)
  have c: "p_real \<le> bonferroni num_mult_test p_real \<longleftrightarrow> p_real \<le> 1"
    using m1 by (simp add: bonferroni_def)
  have d: "bonferroni num_mult_test p_real = 1 \<and> bonferroni num_mult_test p_real < p_real"
    if "1 < p_real"
  proof -
    from m1 that have "1 < real_of_int num_mult_test * p_real" by linarith
    with that show ?thesis by (simp add: bonferroni_def min_def)
  qed
  have e: "p_value lib sr_annual monthly_obs = Some (2 * (1 - c))
            \<and> 1 < 2 * (1 - c)
            \<and> bonferroni num_mult_test (2 * (1 - c)) < 2 * (1 - c)"
    if "0 \<le> monthly_obs"
      and "t_cdf lib (sr_annual / sqrt 12 * sqrt monthly_obs) (monthly_obs - 1) = Some c"
      and "c < 1 / 2"
  proof -
    have "bonferroni num_mult_test (2 * (1 - c)) \<le> 1" by (simp add: bonferroni_def)
    moreover have "1 < 2 * (1 - c)" using that(3) by simp
    moreover have "p_value lib sr_annual monthly_obs = Some (2 * (1 - c))"
      using that(1,2) by (simp add: p_value_def Let_def)
    ultimately show ?thesis by linarith
  qed
  from a b c d e show ?thesis by blast
qed

theorem bonferroni_bounds_witness:
  "bonferroni 10 (1 / 100) = 1 / 10 \<and> bonferroni 200 (1 / 100) = 1
   \<and> 1 / 100 \<le> bonferroni 10 (1 / 100)
   \<and> bonferroni 10 (1 / 100) \<le> bonferroni 200 (1 / 100)
   \<and> t_cdf step_library (- 1 / sqrt 12 * sqrt 4) (4 - 1) = Some (1 / 5)
   \<and> p_value step_library (- 1) 4 = Some (8 / 5)
   \<and> bonferroni 2 (8 / 5) = 1
   \<and> bonferroni 2 (8 / 5) \<le> bonferroni 3 (8 / 5)
   \<and> bonferroni 2 (8 / 5) < 8 / 5"
proof -
  have h: "(0::real) \<le> 1 / 100" "(0::int) < 10" "(10::int) \<le> 200" by simp_all
  have k: "(0::real) \<le> 8 / 5" "(0::int) < 2" "(2::int) \<le> 3" by simp_all
  have t: "(0::real) \<le> 4
           \<and> t_cdf step_library (- 1 / sqrt 12 * sqrt 4) (4 - 1) = Some (1 / 5)
           \<and> (1::real) / 5 < 1 / 2"
    by (simp add: step_library_def)
  have v: "bonferroni 10 (1 / 100) = 1 / 10" "bonferroni 200 (1 / 100) = 1"
    by (simp_all add: bonferroni_def)
  show ?thesis
    using v t bonferroni_bounds [OF h, of 4 step_library "- 1" "1 / 5"]
      bonferroni_bounds [OF k, of 4 step_library "- 1" "1 / 5"]
    by simp
qed

text \<open>
  C5 as it is stated fails on the orchestrator's own p-value: for an annualized Sharpe
  ratio of \<open>-1\<close> over four monthly observations the t-ratio is negative, the p-value is
  above 1 (\<open>8/5\<close> with the step library) and its Bonferroni value for one test is 1.
\<close>

theorem bonferroni_below_p_value_counterexample:
  "p_value step_library (- 1) 4 = Some (8 / 5)
   \<and> bonferroni 1 (8 / 5) = 1
   \<and> bonferroni 1 (8 / 5) < 8 / 5"
  by (simp add: p_value_def step_library_def bonferroni_def)

subsection \<open>The loops of the Holm and BHY methods\<close>

lemma py_index_in_range:
  "0 \<le> i \<Longrightarrow> i < int (length xs) \<Longrightarrow> py_index xs i = Inr (xs ! nat i)"
  by (simp add: py_index_def)

lemma py_index_last:
  "xs \<noteq> [] \<Longrightarrow> py_index xs (- 1) = Inr (last xs)"
  by (simp add: py_index_def Let_def last_conv_nth nat_diff_distrib')

lemma py_max_nonempty: "xs \<noteq> [] \<Longrightarrow> py_max xs = Inr (Max (set xs))"
proof (induction xs rule: py_max.induct)
  case (3 x y ys)
  then show ?case by (simp add: max.commute)
qed simp_all

lemma holm_inner_eq:
  "\<forall>j \<in> set js. 1 \<le> j \<and> j \<le> int (length ps) \<Longrightarrow>
   holm_inner ps M js acc = Inr (acc @ map (\<lambda>j. real_of_int (M + 1 - j + 1) * ps ! nat (j - 1)) js)"
proof (induction js arbitrary: acc)
  case Nil
  then show ?case by simp
next
  case (Cons j js)
  then have "py_index ps (j - 1) = Inr (ps ! nat (j - 1))"
    by (intro py_index_in_range) auto
  with Cons show ?case by simp
qed

lemma holm_running_max_mono: "1 \<le> i \<Longrightarrow> i \<le> k \<Longrightarrow> holm_running_max ps M i \<le> holm_running_max ps M k"
  unfolding holm_running_max_def
  by (intro min.mono Max_mono) auto

lemma sorted_map_upto: "(\<And>i k. a \<le> i \<Longrightarrow> i \<le> k \<Longrightarrow> f i \<le> f k) \<Longrightarrow> sorted (map f [a..b])"
  by (simp add: sorted_iff_nth_mono)

lemma holm_outer_eq:
  "\<forall>i \<in> set is. 1 \<le> i \<and> i \<le> int (length ps) \<Longrightarrow>
   holm_outer ps M is acc = Inr (acc @ map (holm_running_max ps M) is)"
proof (induction "is" arbitrary: acc)
  case Nil
  then show ?case by simp
next
  case (Cons i "is")
  let ?f = "\<lambda>j. real_of_int (M + 1 - j + 1) * ps ! nat (j - 1)"
  let ?g = "\<lambda>j. real_of_int (M - j + 2) * ps ! nat (j - 1)"
  have i: "1 \<le> i" "i \<le> int (length ps)" using Cons.prems by auto
  have f: "?f = ?g"
    by (rule ext) (simp add: algebra_simps)
  have "holm_inner ps M [1..i] [] = Inr ([] @ map ?f [1..i])"
    by (rule holm_inner_eq) (use i in auto)
  then have inner: "holm_inner ps M [1..i] [] = Inr (map ?g [1..i])"
    unfolding f by simp
  have ne: "map ?g [1..i] \<noteq> []" using i by simp
  have mx: "py_max (map ?g [1..i]) = Inr (Max (?g ` {1..i}))"
    using py_max_nonempty [OF ne] by simp
  have step: "holm_outer ps M (i # is) acc = holm_outer ps M is (acc @ [holm_running_max ps M i])"
    by (simp only: holm_outer.simps inner mx sum.case holm_running_max_def)
  have "\<forall>i \<in> set is. 1 \<le> i \<and> i \<le> int (length ps)" using Cons.prems by simp
  from Cons.IH [OF this] show ?case unfolding step by simp
qed

lemma rev_upto_Suc: "rev [1..int (Suc m)] = int (Suc m) # rev [1..int m]"
proof -
  have "[1..int (Suc m)] = [1..int (Suc m) - 1] @ [int (Suc m)]"
    by (rule upto_rec2) simp
  then show ?thesis by simp
qed

lemma bhy_below:
  assumes "int m \<le> M" "m \<le> length ps"
  shows "\<exists>vs. bhy_loop ps M c (rev [1..int m]) (Some prev) acc = Inr (vs @ acc)
           \<and> length vs = m \<and> sorted (vs @ [prev])
           \<and> (\<forall>k<m. (vs @ [prev]) ! k =
                 min ((real_of_int (M + 1) * c / real_of_int (int k + 1)) * ps ! k) ((vs @ [prev]) ! Suc k))"
  using assms
proof (induction m arbitrary: prev acc)
  case 0
  then show ?case by simp
next
  case (Suc m)
  let ?co = "\<lambda>k. real_of_int (M + 1) * c / real_of_int (int k + 1)"
  let ?p = "min (?co m * ps ! m) prev"
  have ne: "int (Suc m) \<noteq> M + 1" using Suc.prems by simp
  have ix: "py_index ps (int (Suc m) - 1) = Inr (ps ! m)"
    using Suc.prems by (subst py_index_in_range) auto
  have m: "int m \<le> M" "m \<le> length ps" using Suc.prems by auto
  from Suc.IH [OF m, of ?p "?p # acc"]
  obtain vs where vs1: "bhy_loop ps M c (rev [1..int m]) (Some ?p) (?p # acc) = Inr (vs @ ?p # acc)"
    and vs2: "length vs = m" and vs3: "sorted (vs @ [?p])"
    and vs4: "\<forall>k<m. (vs @ [?p]) ! k = min (?co k * ps ! k) ((vs @ [?p]) ! Suc k)"
    by blast
  have co: "real_of_int (int (Suc m)) = real_of_int (int m + 1)" by simp
  have 1: "bhy_loop ps M c (rev [1..int (Suc m)]) (Some prev) acc = Inr ((vs @ [?p]) @ acc)"
    unfolding rev_upto_Suc
    by (simp only: bhy_loop.simps ne if_False ix sum.case option.case Let_def vs1 co) simp
  have 2: "sorted ((vs @ [?p]) @ [prev])"
    using vs3 by (auto simp: sorted_append)
  have 3: "((vs @ [?p]) @ [prev]) ! k = min (?co k * ps ! k) (((vs @ [?p]) @ [prev]) ! Suc k)"
    if "k < Suc m" for k
  proof (cases "k < m")
    case True
    have a: "((vs @ [?p]) @ [prev]) ! k = (vs @ [?p]) ! k"
      using True vs2 by (simp add: nth_append)
    have b: "((vs @ [?p]) @ [prev]) ! Suc k = (vs @ [?p]) ! Suc k"
      using True vs2 by (simp add: nth_append)
    show ?thesis unfolding a b using vs4 True by blast
  next
    case False
    with that have km: "k = m" by simp
    have a: "((vs @ [?p]) @ [prev]) ! k = ?p"
      unfolding km using vs2 by (simp add: nth_append)
    have b: "((vs @ [?p]) @ [prev]) ! Suc k = prev"
      unfolding km using vs2 by (simp add: nth_append)
    show ?thesis by (simp only: a b) (simp only: km)
  qed
  have 4: "length (vs @ [?p]) = Suc m" using vs2 by simp
  from 1 2 3 4 show ?case by blast
qed

lemma p_holm_values_eq:
  assumes "M + 1 \<le> int (length ps)"
  shows "p_holm_values ps M = Inr (map (holm_running_max ps M) [1..M + 1])"
proof -
  have "holm_outer ps M [1..M + 1] [] = Inr ([] @ map (holm_running_max ps M) [1..M + 1])"
    by (rule holm_outer_eq) (use assms in auto)
  then show ?thesis by (simp add: p_holm_values_def)
qed

lemma sorted_p_holm: "sorted (map (holm_running_max ps M) [1..b])"
  by (rule sorted_map_upto) (rule holm_running_max_mono)

lemma nth_upto_1: "k < nat b \<Longrightarrow> [1..b] ! k = int k + 1"
  by (simp add: nth_upto)

lemma p_bhy_values_ex:
  assumes "0 \<le> M" and "int (length ps) = M + 1"
  shows "\<exists>bs. p_bhy_values ps M = Inr bs \<and> length bs = length ps \<and> sorted bs
           \<and> last bs = last ps
           \<and> (\<forall>k. Suc k < length bs \<longrightarrow> bs ! k =
                 min ((real_of_int (M + 1) * c_constant M / real_of_int (int k + 1)) * ps ! k) (bs ! Suc k))"
proof -
  let ?c = "c_constant M"
  have ne: "ps \<noteq> []" using assms by auto
  have M: "M = int (nat M)" using assms by simp
  have r: "rev [1..M + 1] = (M + 1) # rev [1..int (nat M)]"
    using rev_upto_Suc [of "nat M"] assms by (simp add: add.commute)
  have len: "nat M \<le> length ps" "int (nat M) \<le> M" using assms by auto
  from bhy_below [OF len(2) len(1), of ?c "last ps" "[last ps]"]
  obtain vs where vs1: "bhy_loop ps M ?c (rev [1..int (nat M)]) (Some (last ps)) [last ps] = Inr (vs @ [last ps])"
    and vs2: "length vs = nat M" and vs3: "sorted (vs @ [last ps])"
    and vs4: "\<forall>k<nat M. (vs @ [last ps]) ! k =
        min ((real_of_int (M + 1) * ?c / real_of_int (int k + 1)) * ps ! k) ((vs @ [last ps]) ! Suc k)"
    by blast
  have 1: "p_bhy_values ps M = Inr (vs @ [last ps])"
    unfolding p_bhy_values_def r
    by (simp only: bhy_loop.simps py_index_last [OF ne] sum.case vs1 simp_thms if_True)
  have 2: "length (vs @ [last ps]) = length ps" using vs2 assms by simp
  have 3: "last (vs @ [last ps]) = last ps" by simp
  have 4: "\<forall>k. Suc k < length (vs @ [last ps]) \<longrightarrow> (vs @ [last ps]) ! k =
        min ((real_of_int (M + 1) * ?c / real_of_int (int k + 1)) * ps ! k) ((vs @ [last ps]) ! Suc k)"
    using vs4 vs2 by simp
  from 1 2 3 4 vs3 show ?thesis by blast
qed

lemma mask_length:
  "length vs = length ps \<Longrightarrow>
   length (map fst (filter (\<lambda>(v, q). q = p) (zip vs ps))) = count_list ps p"
  by (induction vs ps rule: list_induct2) auto

lemma mask_first:
  "length vs = length ps \<Longrightarrow> p \<in> set ps \<Longrightarrow>
   map fst (filter (\<lambda>(v, q). q = p) (zip vs ps)) \<noteq> []
   \<and> hd (map fst (filter (\<lambda>(v, q). q = p) (zip vs ps))) = vs ! length (takeWhile (\<lambda>q. q \<noteq> p) ps)"
  by (induction vs ps rule: list_induct2) auto

lemma py_index_0: "xs \<noteq> [] \<Longrightarrow> py_index xs 0 = Inr (hd xs)"
  by (cases xs) (simp_all add: py_index_def)

lemma count_list_pos_iff: "1 \<le> count_list ps p \<longleftrightarrow> p \<in> set ps"
  using count_list_0_iff [of ps p] by auto

lemma holm_method_match:
  assumes "M + 1 = int (length ps)" and "p \<in> set ps"
  shows "holm_method ps M p = Inr (map (holm_running_max ps M) [1..M + 1] ! length (takeWhile (\<lambda>q. q \<noteq> p) ps))"
proof -
  let ?hs = "map (holm_running_max ps M) [1..M + 1]"
  have h: "p_holm_values ps M = Inr ?hs" using assms by (intro p_holm_values_eq) simp
  have l: "length ?hs = length ps" using assms by simp
  let ?sel = "map fst (filter (\<lambda>(v, q). q = p) (zip ?hs ps))"
  from mask_first [OF l assms(2)]
  have ne: "?sel \<noteq> []" and hd: "hd ?sel = ?hs ! length (takeWhile (\<lambda>q. q \<noteq> p) ps)"
    by blast+
  have m: "mask_select ?hs ps p = Inr ?sel"
    unfolding mask_select_def using l by (simp only: if_False simp_thms)
  show ?thesis
    unfolding holm_method_def h
    by (simp only: sum.case m py_index_0 [OF ne] hd)
qed

lemma assign_array_iff:
  "k < length target \<Longrightarrow> (\<exists>t. assign_array target k sel = Inr t) \<longleftrightarrow> length sel = 1"
  by (cases sel; cases "tl sel") (auto simp: assign_array_def split: list.splits)

lemma assign_array_ValueError:
  "length sel \<noteq> 1 \<Longrightarrow> assign_array target k sel = Inl ValueError"
  by (cases sel; cases "tl sel") (auto simp: assign_array_def split: list.splits)

lemma p_holm_values_example: "p_holm_values [1 / 100, 1 / 2, 3 / 4] 2 = Inr [3 / 100, 1, 1]"
  by (simp add: p_holm_values_def py_index_def upto_rec1)

lemma c_constant_2: "c_constant 2 = 3 / 2"
  by (simp add: c_constant_def upto_rec1)

lemma p_bhy_values_example: "p_bhy_values [1 / 100, 1 / 2, 3 / 4] 2 = Inr [9 / 200, 3 / 4, 3 / 4]"
  by (simp add: p_bhy_values_def c_constant_2 py_index_def upto_rec1 Let_def)

lemma p_holm_values_tie: "p_holm_values [1 / 2, 1 / 2] 1 = Inr [1, 1]"
  by (simp add: p_holm_values_def py_index_def upto_rec1)

lemma bhy_method_tie: "bhy_method [1 / 2, 1 / 2] 1 (1 / 2) = Inr [1 / 2, 1 / 2]"
  by (simp add: bhy_method_def p_bhy_values_def c_constant_def py_index_def upto_rec1 mask_select_def Let_def)

lemma holm_method_tie: "holm_method [1 / 2, 1 / 2] 1 (1 / 2) = Inr 1"
  by (simp add: holm_method_def p_holm_values_tie mask_select_def py_index_def)

lemma assign_array_tie: "assign_array [1, 1] 0 [1 / 2, 1 / 2] = Inl ValueError"
  by (simp add: assign_array_def)

lemma bhy_method_unique: "bhy_method [1 / 100, 1 / 2, 3 / 4] 2 (1 / 2) = Inr [3 / 4]"
  by (simp add: bhy_method_def p_bhy_values_example mask_select_def)

subsection \<open>Holm and BHY sequences\<close>

text \<open>
  C6. For every array of \<open>num_mult_test + 1\<close> p-values, sorted or not, the loops of
  \<^verbatim>\<open>_holm_method\<close> end with an array of the same length that is non-decreasing and
  whose entries are the running maxima capped at 1, and the loop of \<^verbatim>\<open>_bhy_method\<close>
  ends with an array of the same length that is non-decreasing, whose last entry is the
  last p-value and whose other entries are the minimum of the scaled p-value and the
  next entry.
\<close>

theorem holm_bhy_sequences_monotone:
  assumes "0 \<le> num_mult_test" and "int (length all_p_values) = num_mult_test + 1"
  shows "(\<exists>hs. p_holm_values all_p_values num_mult_test = Inr hs
            \<and> length hs = length all_p_values \<and> sorted hs
            \<and> (\<forall>k<length hs. hs ! k = holm_running_max all_p_values num_mult_test (int k + 1)))
       \<and> (\<exists>bs. p_bhy_values all_p_values num_mult_test = Inr bs
            \<and> length bs = length all_p_values \<and> sorted bs
            \<and> last bs = last all_p_values
            \<and> (\<forall>k. Suc k < length bs \<longrightarrow> bs ! k =
                  min ((real_of_int (num_mult_test + 1) * c_constant num_mult_test / real_of_int (int k + 1))
                         * all_p_values ! k) (bs ! Suc k)))"
proof (rule conjI)
  let ?hs = "map (holm_running_max all_p_values num_mult_test) [1..num_mult_test + 1]"
  have 1: "p_holm_values all_p_values num_mult_test = Inr ?hs"
    by (rule p_holm_values_eq) (use assms in simp)
  have 2: "length ?hs = length all_p_values" using assms by simp
  have 3: "sorted ?hs" by (rule sorted_p_holm)
  have 4: "\<forall>k<length ?hs. ?hs ! k = holm_running_max all_p_values num_mult_test (int k + 1)"
    by (simp add: nth_upto algebra_simps)
  from 1 2 3 4 show "\<exists>hs. p_holm_values all_p_values num_mult_test = Inr hs
            \<and> length hs = length all_p_values \<and> sorted hs
            \<and> (\<forall>k<length hs. hs ! k = holm_running_max all_p_values num_mult_test (int k + 1))"
    by blast
next
  show "\<exists>bs. p_bhy_values all_p_values num_mult_test = Inr bs
            \<and> length bs = length all_p_values \<and> sorted bs
            \<and> last bs = last all_p_values
            \<and> (\<forall>k. Suc k < length bs \<longrightarrow> bs ! k =
                  min ((real_of_int (num_mult_test + 1) * c_constant num_mult_test / real_of_int (int k + 1))
                         * all_p_values ! k) (bs ! Suc k))"
    using assms by (rule p_bhy_values_ex)
qed

theorem holm_bhy_sequences_monotone_witness:
  "(0::int) \<le> 2 \<and> int (length [1 / 100, 1 / 2, 3 / 4 :: real]) = 2 + 1
   \<and> p_holm_values [1 / 100, 1 / 2, 3 / 4] 2 = Inr [3 / 100, 1, 1]
   \<and> p_bhy_values [1 / 100, 1 / 2, 3 / 4] 2 = Inr [9 / 200, 3 / 4, 3 / 4]
   \<and> (\<exists>hs. p_holm_values [1 / 100, 1 / 2, 3 / 4] 2 = Inr hs \<and> sorted hs)
   \<and> (\<exists>bs. p_bhy_values [1 / 100, 1 / 2, 3 / 4] 2 = Inr bs \<and> sorted bs)"
proof -
  have h: "(0::int) \<le> 2" "int (length [1 / 100, 1 / 2, 3 / 4 :: real]) = 2 + 1" by simp_all
  from holm_bhy_sequences_monotone [OF h]
  have "(\<exists>hs. p_holm_values [1 / 100, 1 / 2, 3 / 4] 2 = Inr hs \<and> sorted hs)
      \<and> (\<exists>bs. p_bhy_values [1 / 100, 1 / 2, 3 / 4] 2 = Inr bs \<and> sorted bs)"
    by blast
  with h p_holm_values_example p_bhy_values_example show ?thesis by blast
qed

subsection \<open>The value selected for the real strategy\<close>

text \<open>
  C10. For an array of \<open>num_mult_test + 1\<close> p-values, \<^verbatim>\<open>_bhy_method\<close> returns the
  adjusted values at all the positions that equal \<open>p_val\<close>, as many as \<open>p_val\<close> occurs:
  one value when it occurs once. \<^verbatim>\<open>_holm_method\<close> returns the Holm value at the first
  such position whenever there is one. The assignment of the BHY result to an element
  of \<^verbatim>\<open>p_bhy\<close> succeeds exactly when \<open>p_val\<close> occurs once, and raises \<^verbatim>\<open>ValueError\<close>
  otherwise.
\<close>

theorem bhy_returns_every_match:
  assumes "0 \<le> num_mult_test" and "int (length all_p_values) = num_mult_test + 1"
  shows "\<exists>hs bs sel.
           p_holm_values all_p_values num_mult_test = Inr hs
         \<and> p_bhy_values all_p_values num_mult_test = Inr bs
         \<and> bhy_method all_p_values num_mult_test p_val = Inr sel
         \<and> sel = map fst (filter (\<lambda>(v, q). q = p_val) (zip bs all_p_values))
         \<and> length sel = count_list all_p_values p_val
         \<and> (count_list all_p_values p_val = 1 \<longrightarrow> (\<exists>v. sel = [v]))
         \<and> (1 \<le> count_list all_p_values p_val \<longrightarrow>
              holm_method all_p_values num_mult_test p_val
                = Inr (hs ! length (takeWhile (\<lambda>q. q \<noteq> p_val) all_p_values)))
         \<and> (k < length target \<longrightarrow>
              ((\<exists>t. assign_array target k sel = Inr t) \<longleftrightarrow> count_list all_p_values p_val = 1))
         \<and> (count_list all_p_values p_val \<noteq> 1 \<longrightarrow> assign_array target k sel = Inl ValueError)"
proof -
  let ?hs = "map (holm_running_max all_p_values num_mult_test) [1..num_mult_test + 1]"
  have 1: "p_holm_values all_p_values num_mult_test = Inr ?hs"
    by (rule p_holm_values_eq) (use assms in simp)
  from p_bhy_values_ex [OF assms]
  obtain bs where 2: "p_bhy_values all_p_values num_mult_test = Inr bs"
    and lb: "length bs = length all_p_values" by blast
  let ?sel = "map fst (filter (\<lambda>(v, q). q = p_val) (zip bs all_p_values))"
  have 3: "bhy_method all_p_values num_mult_test p_val = Inr ?sel"
    unfolding bhy_method_def 2 mask_select_def using lb by (simp only: sum.case if_False simp_thms)
  have 4: "length ?sel = count_list all_p_values p_val"
    using lb by (rule mask_length)
  have 5: "\<exists>v. ?sel = [v]" if "count_list all_p_values p_val = 1"
    using 4 that by (simp only: length_Suc_conv One_nat_def) auto
  have 6: "holm_method all_p_values num_mult_test p_val
             = Inr (?hs ! length (takeWhile (\<lambda>q. q \<noteq> p_val) all_p_values))"
    if "1 \<le> count_list all_p_values p_val"
  proof (rule holm_method_match)
    show "num_mult_test + 1 = int (length all_p_values)" using assms by simp
    show "p_val \<in> set all_p_values" using that by (simp only: count_list_pos_iff)
  qed
  have 7: "(\<exists>t. assign_array target k ?sel = Inr t) \<longleftrightarrow> count_list all_p_values p_val = 1"
    if "k < length target"
    using assign_array_iff [OF that, of ?sel] 4 by simp
  have 8: "assign_array target k ?sel = Inl ValueError" if "count_list all_p_values p_val \<noteq> 1"
    using assign_array_ValueError [of ?sel] 4 that by simp
  show ?thesis
    apply (rule exI [of _ ?hs], rule exI [of _ bs], rule exI [of _ ?sel])
    using 1 2 3 4 5 6 7 8 by (intro conjI impI) (blast+)
qed

theorem bhy_returns_every_match_witness:
  "(0::int) \<le> 1 \<and> int (length [1 / 2, 1 / 2 :: real]) = 1 + 1
   \<and> count_list [1 / 2, 1 / 2 :: real] (1 / 2) = 2
   \<and> bhy_method [1 / 2, 1 / 2] 1 (1 / 2) = Inr [1 / 2, 1 / 2]
   \<and> holm_method [1 / 2, 1 / 2] 1 (1 / 2) = Inr 1
   \<and> assign_array [1, 1] 0 [1 / 2, 1 / 2] = Inl ValueError
   \<and> bhy_method [1 / 100, 1 / 2, 3 / 4] 2 (1 / 2) = Inr [3 / 4]
   \<and> (\<exists>sel. bhy_method [1 / 2, 1 / 2] 1 (1 / 2) = Inr sel
          \<and> length sel = count_list [1 / 2, 1 / 2 :: real] (1 / 2)
          \<and> assign_array [1, 1] 0 sel = Inl ValueError)"
proof -
  have h: "(0::int) \<le> 1" "int (length [1 / 2, 1 / 2 :: real]) = 1 + 1" by simp_all
  have c: "count_list [1 / 2, 1 / 2 :: real] (1 / 2) = 2" by simp
  from bhy_returns_every_match [OF h, of "1 / 2" 0 "[1, 1]"]
  obtain sel where s: "bhy_method [1 / 2, 1 / 2] 1 (1 / 2) = Inr sel"
      "length sel = count_list [1 / 2, 1 / 2 :: real] (1 / 2)"
      "count_list [1 / 2, 1 / 2 :: real] (1 / 2) \<noteq> 1
         \<longrightarrow> assign_array [1, 1] 0 sel = Inl ValueError"
    by blast
  from s(3) c have "assign_array [1, 1] 0 sel = Inl ValueError" by simp
  with s(1,2)
  have "\<exists>sel. bhy_method [1 / 2, 1 / 2] 1 (1 / 2) = Inr sel
          \<and> length sel = count_list [1 / 2, 1 / 2 :: real] (1 / 2)
          \<and> assign_array [1, 1] 0 sel = Inl ValueError"
    by blast
  with h c bhy_method_tie holm_method_tie assign_array_tie bhy_method_unique show ?thesis by blast
qed

subsection \<open>The entries of a panel row used in one repetition\<close>



lemma t_values_simulation_example: "t_values_simulation [[10, 20, 30]] 1 2 = Inr [20, 30]"
  by (simp add: t_values_simulation_def py_index_def py_slice_def)




end
